theory Spec2Isabelle
  imports
    Main
    "HOL-Library.Char_ord"
    "HOL-Library.List_Lexorder"
    "HOL-Library.Multiset"
    "HOL-Library.Sublist"
begin

section \<open>The weekly workout scheduler: state model and derived views\<close>

text \<open>
  The component \<open>Scheduler\<close> keeps three pieces of state (the session list, the session
  form, the exercise drafts) and changes them only through a fixed set of handlers. Each
  handler is embedded below as a function from the state to the next state; the derived
  views (\<open>grouped\<close>, \<open>nextSessionId\<close>) are functions of the session list.
\<close>

subsection \<open>The pieces of the JavaScript library that the handlers use\<close>

text \<open>
  JavaScript's \<open>%\<close> is the remainder of the division that truncates towards zero: its
  result has the sign of the dividend. HOL's \<open>mod\<close> on \<open>int\<close> follows the floor instead.
\<close>

definition js_rem :: "int \<Rightarrow> int \<Rightarrow> int" where
  "js_rem a b = sgn a * (\<bar>a\<bar> mod \<bar>b\<bar>)"

text \<open>
  A text is a list of 8-bit characters, the UTF-8 form of the JavaScript string. A
  character of the string is a lead byte with the continuation bytes (\<open>0x80 .. 0xBF\<close>)
  that follow it; \<open>utf8_chars\<close> cuts a text into its characters and \<open>code_point\<close> reads
  the code point of one.
\<close>

definition is_cont :: "char \<Rightarrow> bool" where
  "is_cont c = (128 \<le> (of_char c :: int) \<and> (of_char c :: int) < 192)"

function utf8_chars :: "string \<Rightarrow> string list" where
  "utf8_chars [] = []"
| "utf8_chars (c # cs) = (c # takeWhile is_cont cs) # utf8_chars (dropWhile is_cont cs)"
  by pat_completeness auto
termination
  by (relation "measure length") (auto simp: length_dropWhile_le less_Suc_eq_le)

definition code_point :: "string \<Rightarrow> int option" where
  "code_point u =
     (case map of_char u of
        [a] \<Rightarrow> if a < 128 then Some a else None
      | [a, b] \<Rightarrow>
          (let p = (a - 192) * 64 + (b - 128)
           in if 192 \<le> a \<and> a < 224 \<and> 128 \<le> p then Some p else None)
      | [a, b, c] \<Rightarrow>
          (let p = (a - 224) * 4096 + (b - 128) * 64 + (c - 128)
           in if 224 \<le> a \<and> a < 240 \<and> 2048 \<le> p then Some p else None)
      | [a, b, c, d] \<Rightarrow>
          (let p = (a - 240) * 262144 + (b - 128) * 4096 + (c - 128) * 64 + (d - 128)
           in if 240 \<le> a \<and> a < 248 \<and> 65536 \<le> p then Some p else None)
      | _ \<Rightarrow> None)"

text \<open>
  The white space that \<open>trim\<close> and \<open>parseInt\<close> strip, as ECMAScript lists it: the code
  points of \<open>WhiteSpace\<close> (tab, vertical tab, form feed, U+FEFF and the category
  \<open>Space_Separator\<close>: U+0020, U+00A0, U+1680, U+2000 .. U+200A, U+202F, U+205F, U+3000) and
  of \<open>LineTerminator\<close> (line feed, carriage return, U+2028, U+2029).
\<close>

definition white_space_points :: "int list" where
  "white_space_points =
     [0x09, 0x0B, 0x0C, 0xFEFF,
      0x20, 0xA0, 0x1680, 0x2000, 0x2001, 0x2002, 0x2003, 0x2004, 0x2005, 0x2006, 0x2007,
      0x2008, 0x2009, 0x200A, 0x202F, 0x205F, 0x3000,
      0x0A, 0x0D, 0x2028, 0x2029]"

definition is_space :: "string \<Rightarrow> bool" where
  "is_space u = (case code_point u of None \<Rightarrow> False | Some p \<Rightarrow> p \<in> set white_space_points)"

text \<open>\<open>String.prototype.trim\<close>: the white space at both ends is removed.\<close>

definition trim :: "string \<Rightarrow> string" where
  "trim s = concat (rev (dropWhile is_space (rev (dropWhile is_space (utf8_chars s)))))"

definition is_digit :: "char \<Rightarrow> bool" where
  "is_digit c = (c \<in> set ''0123456789'')"

definition digit_val :: "char \<Rightarrow> int" where
  "digit_val c = int (of_char c) - 48"

definition digit_char :: "int \<Rightarrow> char" where
  "digit_char d = ''0123456789'' ! nat d"

text \<open>\<open>String.prototype.split\<close> with a one-character separator.\<close>

fun split :: "char \<Rightarrow> string \<Rightarrow> string list" where
  "split sep [] = [[]]"
| "split sep (c # cs) =
     (if c = sep then [] # split sep cs
      else (case split sep cs of
              [] \<Rightarrow> [[c]]
            | p # ps \<Rightarrow> (c # p) # ps))"

text \<open>
  An array pattern \<open>[a, b] = xs\<close> reads the positions 0 and 1; a position that the array
  does not have gives \<open>undefined\<close>, which is \<open>None\<close> here.
\<close>

fun at :: "'a list \<Rightarrow> nat \<Rightarrow> 'a option" where
  "at [] n = None"
| "at (x # xs) 0 = Some x"
| "at (x # xs) (Suc n) = at xs n"

text \<open>
  \<open>parseInt(s, 10)\<close>: leading white space is skipped, one sign is read, then the longest
  run of decimal digits; no digit at all gives \<open>NaN\<close>, which is \<open>None\<close> here, and so does
  \<open>undefined\<close>, whose text \<open>"undefined"\<close> starts with no digit.
\<close>

definition digits_value :: "string \<Rightarrow> int" where
  "digits_value ds = foldl (\<lambda>acc c. 10 * acc + digit_val c) 0 ds"

definition parseInt :: "string option \<Rightarrow> int option" where
  "parseInt so =
     (case so of
        None \<Rightarrow> None
      | Some s \<Rightarrow>
          (let t = concat (dropWhile is_space (utf8_chars s));
               neg = (case t of c # _ \<Rightarrow> c = CHR ''-'' | [] \<Rightarrow> False);
               u = (case t of c # r \<Rightarrow> if c = CHR ''-'' \<or> c = CHR ''+'' then r else t | [] \<Rightarrow> t);
               ds = takeWhile is_digit u
           in if ds = [] then None
              else Some (if neg then - digits_value ds else digits_value ds)))"

text \<open>\<open>Number.prototype.toString\<close> on an integral value, and on \<open>NaN\<close>.\<close>

fun nat_digits :: "nat \<Rightarrow> string" where
  "nat_digits n =
     (if n < 10 then [digit_char (int n)]
      else nat_digits (n div 10) @ [digit_char (int (n mod 10))])"

declare nat_digits.simps [simp del]

definition toString :: "int option \<Rightarrow> string" where
  "toString v =
     (case v of
        None \<Rightarrow> ''NaN''
      | Some n \<Rightarrow> (if n < 0 then CHR ''-'' # nat_digits (nat (- n)) else nat_digits (nat n)))"

text \<open>\<open>padStart\<close> with a one-character filler.\<close>

definition padStart :: "nat \<Rightarrow> char \<Rightarrow> string \<Rightarrow> string" where
  "padStart n c s = replicate (n - length s) c @ s"

subsection \<open>The time shift of \<open>duplicateSession\<close>\<close>

text \<open>
  \<open>adjustTime\<close> closes over \<open>offsetMinutes\<close>, which is the first argument here. Arithmetic
  on \<open>NaN\<close> gives \<open>NaN\<close>, so every step maps \<open>None\<close> to \<open>None\<close>. \<open>Math.floor(n / 60)\<close> is
  \<open>n div 60\<close>, the floor of the quotient.
\<close>

definition adjustTime :: "int \<Rightarrow> string \<Rightarrow> string" where
  "adjustTime offsetMinutes time =
     (let parts = split CHR '':'' time;
          hourStr = at parts 0;
          minuteStr = at parts 1;
          minuteValue =
            (case (parseInt hourStr, parseInt minuteStr) of
               (Some h, Some m) \<Rightarrow> Some (h * 60 + m + offsetMinutes)
             | _ \<Rightarrow> None);
          normalized = map_option (\<lambda>v. js_rem (js_rem v (24 * 60) + 24 * 60) (24 * 60)) minuteValue;
          hours = padStart 2 CHR ''0'' (toString (map_option (\<lambda>n. n div 60) normalized));
          minutes = padStart 2 CHR ''0'' (toString (map_option (\<lambda>n. js_rem n 60) normalized))
      in hours @ '':'' @ minutes)"

text \<open>
  What the specification calls a valid time: two digits, a colon, two digits, with the
  hour below 24 and the minute below 60; and its minutes since midnight.
\<close>

definition hour_of :: "string \<Rightarrow> int" where
  "hour_of t = 10 * digit_val (t ! 0) + digit_val (t ! 1)"

definition minute_of :: "string \<Rightarrow> int" where
  "minute_of t = 10 * digit_val (t ! 3) + digit_val (t ! 4)"

definition valid_time :: "string \<Rightarrow> bool" where
  "valid_time t \<longleftrightarrow>
     length t = 5 \<and> is_digit (t ! 0) \<and> is_digit (t ! 1) \<and> t ! 2 = CHR '':'' \<and>
     is_digit (t ! 3) \<and> is_digit (t ! 4) \<and> hour_of t < 24 \<and> minute_of t < 60"

definition since_midnight :: "string \<Rightarrow> int" where
  "since_midnight t = hour_of t * 60 + minute_of t"

text \<open>The zero-padded text of \<open>n\<close> minutes since midnight, for \<open>0 \<le> n < 1440\<close>.\<close>

definition clock :: "int \<Rightarrow> string" where
  "clock n = [digit_char (n div 60 div 10), digit_char (n div 60 mod 10), CHR '':'',
              digit_char (n mod 60 div 10), digit_char (n mod 60 mod 10)]"

subsection \<open>Sorting and comparing\<close>

text \<open>
  \<open>Array.prototype.indexOf\<close>: the first position of the element, \<open>-1\<close> when it is absent.
\<close>

fun indexOf :: "'a list \<Rightarrow> 'a \<Rightarrow> int" where
  "indexOf [] x = - 1"
| "indexOf (y # ys) x =
     (if y = x then 0 else (let r = indexOf ys x in if r < 0 then - 1 else r + 1))"

text \<open>
  Modelled from the spec: \<open>String.prototype.localeCompare\<close> is the platform's collation,
  which the repository does not contain; the specification takes it as the lexicographic
  comparison of the two texts, character by character. The result is negative, zero or
  positive.
\<close>

fun localeCompare :: "string \<Rightarrow> string \<Rightarrow> int" where
  "localeCompare [] [] = 0"
| "localeCompare [] (y # ys) = - 1"
| "localeCompare (x # xs) [] = 1"
| "localeCompare (x # xs) (y # ys) =
     (if (of_char x :: nat) < of_char y then - 1
      else if (of_char y :: nat) < of_char x then 1
      else localeCompare xs ys)"

text \<open>
  \<open>Array.prototype.sort\<close> with a comparator is stable: an element moves in front of
  another only when the comparator puts it strictly before. For a comparator that is a
  total preorder this fixes the result, which stable insertion computes.
\<close>

fun insert_sorted :: "('a \<Rightarrow> 'a \<Rightarrow> int) \<Rightarrow> 'a \<Rightarrow> 'a list \<Rightarrow> 'a list" where
  "insert_sorted cmp x [] = [x]"
| "insert_sorted cmp x (y # ys) =
     (if cmp x y \<le> 0 then x # y # ys else y # insert_sorted cmp x ys)"

definition sort_js :: "('a \<Rightarrow> 'a \<Rightarrow> int) \<Rightarrow> 'a list \<Rightarrow> 'a list" where
  "sort_js cmp xs = foldr (insert_sorted cmp) xs []"

subsection \<open>Data\<close>

datatype DayKey = Monday | Tuesday | Wednesday | Thursday | Friday | Saturday | Sunday

definition dayKeys :: "DayKey list" where
  "dayKeys = [Monday, Tuesday, Wednesday, Thursday, Friday, Saturday, Sunday]"

datatype Intensity = Light | Moderate | Intense

text \<open>
  Field names that two types share, or that HOL already uses, carry a suffix: \<open>_e\<close> in an
  exercise, \<open>_t\<close> in a template, \<open>_s\<close> for the session's \<open>id\<close>, \<open>end\<close> and \<open>notes\<close>. The number
  \<open>sets\<close> is integral in every literal of the source and is an \<open>int\<close> here.
\<close>

record ExercisePlan =
  id_e :: string
  name :: string
  focus_e :: string
  sets :: int
  reps :: string
  notes_e :: string

text \<open>
  The session form is \<open>Omit<SessionPlan, 'id' | 'exercises'>\<close>; a session plan extends it
  by these two fields.
\<close>

record SessionForm =
  day :: DayKey
  start :: string
  end_s :: string
  focus :: string
  intensity :: Intensity
  location :: string
  target :: string
  notes_s :: string

record SessionPlan = SessionForm +
  id_s :: string
  exercises :: "ExercisePlan list"

record Template =
  label :: string
  focus_t :: string
  intensity_t :: Intensity
  location_t :: string
  target_t :: string
  notes_t :: string
  exercises_t :: "ExercisePlan list"

text \<open>
  \<open>uuid()\<close> draws a random identifier. The identifiers drawn are a parameter of the model,
  a sequence \<open>uuid 0, uuid 1, \<dots>\<close> of which the state records how many have been used;
  nothing is assumed of the sequence unless a lemma says so.
\<close>

type_synonym uuid_source = "nat \<Rightarrow> string"

definition defaultExercises :: "uuid_source \<Rightarrow> ExercisePlan list" where
  "defaultExercises uuid =
     [\<lparr>id_e = uuid 0, name = ''Barbell Back Squat'', focus_e = ''Compound'', sets = 4,
       reps = ''6-8'', notes_e = ''Tempo 3-1-1, rest 120s''\<rparr>,
      \<lparr>id_e = uuid 1, name = ''Romanian Deadlift'', focus_e = ''Posterior Chain'', sets = 3,
       reps = ''8-10'', notes_e = ''Use straps if grip fatigues''\<rparr>]"

definition templates :: "uuid_source \<Rightarrow> Template list" where
  "templates uuid =
     [\<lparr>label = ''Push Power 60m'', focus_t = ''Upper Body Push'', intensity_t = Intense,
       location_t = ''Strength Zone'', target_t = ''Chest/Shoulders/Triceps'',
       notes_t = ''Prioritize heavy compounds, finish with sled pushes.'',
       exercises_t =
         [\<lparr>id_e = uuid 2, name = ''Flat Bench Press'', focus_e = ''Compound'', sets = 5,
           reps = ''5'', notes_e = ''Add 2.5kg each microcycle''\<rparr>,
          \<lparr>id_e = uuid 3, name = ''Seated DB Shoulder Press'', focus_e = ''Accessory'', sets = 3,
           reps = ''8-10'', notes_e = []\<rparr>,
          \<lparr>id_e = uuid 4, name = ''Weighted Dips'', focus_e = ''Accessory'', sets = 3,
           reps = ''AMRAP'', notes_e = ''RPE 8''\<rparr>]\<rparr>,
      \<lparr>label = ''Conditioning 40m'', focus_t = ''Engine Builder'', intensity_t = Moderate,
       location_t = ''Turf + Assault Bike'', target_t = ''Cardio / Core'',
       notes_t = ''Sustainable heart rate 150-160, nasal breathing focus.'',
       exercises_t =
         [\<lparr>id_e = uuid 5, name = ''Assault Bike Intervals'', focus_e = ''Cardio'', sets = 8,
           reps = ''60s on / 60s off'', notes_e = []\<rparr>,
          \<lparr>id_e = uuid 6, name = ''Farmer Carry'', focus_e = ''Core / Grip'', sets = 4,
           reps = ''40m'', notes_e = ''Heavy kettlebells''\<rparr>]\<rparr>,
      \<lparr>label = ''Mobility Reset 30m'', focus_t = ''Recovery'', intensity_t = Light,
       location_t = ''Studio'', target_t = ''Mobility / Breathwork'',
       notes_t = ''Full-body flow to enhance recovery and joint health.'',
       exercises_t =
         [\<lparr>id_e = uuid 7, name = ''90/90 Hip Flow'', focus_e = ''Mobility'', sets = 3,
           reps = ''3 min per side'', notes_e = []\<rparr>,
          \<lparr>id_e = uuid 8, name = ''Thoracic Opener'', focus_e = ''Mobility'', sets = 3,
           reps = ''12 reps'', notes_e = ''Foam roller''\<rparr>,
          \<lparr>id_e = uuid 9, name = ''Box Breathing'', focus_e = ''Breathwork'', sets = 1,
           reps = ''6 min'', notes_e = ''4-4-4-4 cadence''\<rparr>]\<rparr>]"

definition initialSessionForm :: SessionForm where
  "initialSessionForm =
     \<lparr>day = Monday, start = ''07:00'', end_s = ''08:15'', focus = ''Lower Body Strength'',
      intensity = Intense, location = ''Rack Bay'', target = ''Quads/Glutes/Core'', notes_s = []\<rparr>"

subsection \<open>The state of the component and its handlers\<close>

text \<open>
  The three \<open>useState\<close> cells that the handlers write, with the number of identifiers
  drawn so far. (\<open>activeTab\<close> only selects what is displayed.)
\<close>

record Scheduler =
  sessions :: "SessionPlan list"
  sessionForm :: SessionForm
  exerciseDrafts :: "ExercisePlan list"
  uuid_next :: nat

text \<open>
  The module draws ten identifiers for \<open>defaultExercises\<close> and \<open>templates\<close>; the component
  starts with one session, built from \<open>initialSessionForm\<close> and \<open>defaultExercises\<close>, and
  one blank draft.
\<close>

definition initialState :: "uuid_source \<Rightarrow> Scheduler" where
  "initialState uuid =
     \<lparr>sessions =
        [\<lparr>day = day initialSessionForm, start = start initialSessionForm,
          end_s = end_s initialSessionForm, focus = focus initialSessionForm,
          intensity = intensity initialSessionForm, location = location initialSessionForm,
          target = target initialSessionForm, notes_s = notes_s initialSessionForm,
          id_s = uuid 10, exercises = defaultExercises uuid\<rparr>],
      sessionForm = initialSessionForm,
      exerciseDrafts =
        [\<lparr>id_e = uuid 11, name = [], focus_e = [], sets = 3, reps = ''8-12'', notes_e = []\<rparr>],
      uuid_next = 12\<rparr>"

text \<open>\<open>handleSessionChange(key, value)\<close>: a key of the form with a value of its type.\<close>

datatype SessionField =
    F_day DayKey
  | F_start string
  | F_end string
  | F_focus string
  | F_intensity Intensity
  | F_location string
  | F_target string
  | F_notes string

fun set_session_field :: "SessionField \<Rightarrow> SessionForm \<Rightarrow> SessionForm" where
  "set_session_field (F_day v) f = f\<lparr>day := v\<rparr>"
| "set_session_field (F_start v) f = f\<lparr>start := v\<rparr>"
| "set_session_field (F_end v) f = f\<lparr>end_s := v\<rparr>"
| "set_session_field (F_focus v) f = f\<lparr>focus := v\<rparr>"
| "set_session_field (F_intensity v) f = f\<lparr>intensity := v\<rparr>"
| "set_session_field (F_location v) f = f\<lparr>location := v\<rparr>"
| "set_session_field (F_target v) f = f\<lparr>target := v\<rparr>"
| "set_session_field (F_notes v) f = f\<lparr>notes_s := v\<rparr>"

definition handleSessionChange :: "SessionField \<Rightarrow> Scheduler \<Rightarrow> Scheduler" where
  "handleSessionChange kv st = st\<lparr>sessionForm := set_session_field kv (sessionForm st)\<rparr>"

text \<open>\<open>handleExerciseChange(id, key, value)\<close>: a key of an exercise with its value.\<close>

datatype ExerciseField =
    E_id string
  | E_name string
  | E_focus string
  | E_sets int
  | E_reps string
  | E_notes string

fun set_exercise_field :: "ExerciseField \<Rightarrow> ExercisePlan \<Rightarrow> ExercisePlan" where
  "set_exercise_field (E_id v) e = e\<lparr>id_e := v\<rparr>"
| "set_exercise_field (E_name v) e = e\<lparr>name := v\<rparr>"
| "set_exercise_field (E_focus v) e = e\<lparr>focus_e := v\<rparr>"
| "set_exercise_field (E_sets v) e = e\<lparr>sets := v\<rparr>"
| "set_exercise_field (E_reps v) e = e\<lparr>reps := v\<rparr>"
| "set_exercise_field (E_notes v) e = e\<lparr>notes_e := v\<rparr>"

definition handleExerciseChange :: "string \<Rightarrow> ExerciseField \<Rightarrow> Scheduler \<Rightarrow> Scheduler" where
  "handleExerciseChange i kv st =
     st\<lparr>exerciseDrafts :=
          map (\<lambda>exercise. if id_e exercise = i then set_exercise_field kv exercise else exercise)
            (exerciseDrafts st)\<rparr>"

text \<open>
  The \<open>onChange\<close> of the sets input passes \<open>Number(event.target.value) || 0\<close>. Its argument
  here is the value of \<open>Number(\<dots>)\<close>, \<open>None\<close> for \<open>NaN\<close>; an emptied input has the text
  \<open>""\<close>, whose number is 0. \<open>x || 0\<close> is 0 when \<open>x\<close> is 0 or \<open>NaN\<close> and \<open>x\<close> otherwise.
\<close>

definition setsOnChange :: "string \<Rightarrow> int option \<Rightarrow> Scheduler \<Rightarrow> Scheduler" where
  "setsOnChange i v st =
     handleExerciseChange i
       (E_sets (case v of None \<Rightarrow> 0 | Some n \<Rightarrow> if n = 0 then 0 else n)) st"

definition addExerciseDraft :: "uuid_source \<Rightarrow> Scheduler \<Rightarrow> Scheduler" where
  "addExerciseDraft uuid st =
     st\<lparr>exerciseDrafts := exerciseDrafts st @
            [\<lparr>id_e = uuid (uuid_next st), name = [], focus_e = [], sets = 3, reps = ''10'',
              notes_e = []\<rparr>],
        uuid_next := Suc (uuid_next st)\<rparr>"

definition removeExerciseDraft :: "string \<Rightarrow> Scheduler \<Rightarrow> Scheduler" where
  "removeExerciseDraft i st =
     st\<lparr>exerciseDrafts :=
          (if length (exerciseDrafts st) = 1 then exerciseDrafts st
           else filter (\<lambda>exercise. id_e exercise \<noteq> i) (exerciseDrafts st))\<rparr>"

text \<open>\<open>.map((exercise) => ({ ...exercise, id: uuid() }))\<close>, drawing from position \<open>k\<close> on.\<close>

fun with_fresh_ids :: "uuid_source \<Rightarrow> nat \<Rightarrow> ExercisePlan list \<Rightarrow> ExercisePlan list" where
  "with_fresh_ids uuid k [] = []"
| "with_fresh_ids uuid k (e # es) = e\<lparr>id_e := uuid k\<rparr> # with_fresh_ids uuid (Suc k) es"

definition fallback :: "string \<Rightarrow> ExercisePlan" where
  "fallback i =
     \<lparr>id_e = i, name = ''Full-Body Circuit'', focus_e = ''Conditioning'', sets = 5,
      reps = ''45s on / 15s off'', notes_e = ''Use sled, battle ropes, and med-ball slams''\<rparr>"

text \<open>
  \<open>addSession(customExercises?)\<close>; the button calls it with no argument, which is \<open>None\<close>.
  The identifiers are drawn in the order of the text: the kept exercises, the fallback, the
  session, the new blank draft.
\<close>

definition addSession :: "uuid_source \<Rightarrow> ExercisePlan list option \<Rightarrow> Scheduler \<Rightarrow> Scheduler" where
  "addSession uuid customExercises st =
     (let k = uuid_next st;
          kept = filter (\<lambda>exercise. length (trim (name exercise)) > 0)
                   (case customExercises of None \<Rightarrow> exerciseDrafts st | Some es \<Rightarrow> es);
          mapped = with_fresh_ids uuid k kept;
          k1 = k + length kept;
          exercises' = (if length mapped = 0 then mapped @ [fallback (uuid k1)] else mapped);
          k2 = (if length mapped = 0 then Suc k1 else k1);
          f = sessionForm st
      in st\<lparr>sessions := sessions st @
               [\<lparr>day = day f, start = start f, end_s = end_s f, focus = focus f,
                 intensity = intensity f, location = location f, target = target f,
                 notes_s = notes_s f, id_s = uuid k2, exercises = exercises'\<rparr>],
            exerciseDrafts :=
               [\<lparr>id_e = uuid (Suc k2), name = [], focus_e = [], sets = 3, reps = ''8-12'',
                 notes_e = []\<rparr>],
            uuid_next := Suc (Suc k2)\<rparr>)"

text \<open>
  \<open>applyTemplateToDay(day, templateIndex)\<close>: \<open>templates[templateIndex]\<close> is \<open>undefined\<close>
  outside the catalogue, and reading \<open>template.focus\<close> then throws a \<open>TypeError\<close>.
\<close>

datatype error = TypeError

definition applyTemplateToDay :: "uuid_source \<Rightarrow> DayKey \<Rightarrow> nat \<Rightarrow> Scheduler \<Rightarrow> error + Scheduler" where
  "applyTemplateToDay uuid d templateIndex st =
     (case at (templates uuid) templateIndex of
        None \<Rightarrow> Inl TypeError
      | Some template \<Rightarrow>
          (let k = uuid_next st
           in Inr (st\<lparr>sessions := sessions st @
                    [\<lparr>day = d, start = ''18:00'', end_s = ''19:00'', focus = focus_t template,
                      intensity = intensity_t template, location = location_t template,
                      target = target_t template, notes_s = notes_t template,
                      id_s = uuid k,
                      exercises = with_fresh_ids uuid (Suc k) (exercises_t template)\<rparr>],
                  uuid_next := Suc k + length (exercises_t template)\<rparr>)))"

definition clearDay :: "DayKey \<Rightarrow> Scheduler \<Rightarrow> Scheduler" where
  "clearDay d st = st\<lparr>sessions := filter (\<lambda>session. day session \<noteq> d) (sessions st)\<rparr>"

datatype Direction = Next | Previous

text \<open>The text \<open>" \<bullet> Duplicated "\<close>; the bullet is the three bytes of its UTF-8 form.\<close>

definition duplicated_mark :: string where
  "duplicated_mark = '' '' @ [CHR 0xE2, CHR 0x80, CHR 0xA2] @ '' Duplicated ''"

text \<open>
  \<open>duplicateSession(sessionId, direction)\<close>. \<open>today\<close> is the text of
  \<open>format(new Date(), 'MMM d')\<close>. \<open>dayKeys[nextIndex]\<close> is read with \<open>!\<close>: the index is
  within the seven days for every day (lemma \<open>nextIndex_range\<close>).
\<close>

definition nextIndex :: "Direction \<Rightarrow> DayKey \<Rightarrow> int" where
  "nextIndex direction d =
     (let currentDayIndex = indexOf dayKeys d
      in if direction = Next then js_rem (currentDayIndex + 1) (int (length dayKeys))
         else js_rem (currentDayIndex - 1 + int (length dayKeys)) (int (length dayKeys)))"

definition duplicateSession :: "uuid_source \<Rightarrow> string \<Rightarrow> string \<Rightarrow> Direction \<Rightarrow> Scheduler \<Rightarrow> Scheduler" where
  "duplicateSession uuid today sessionId direction st =
     (case find (\<lambda>session. id_s session = sessionId) (sessions st) of
        None \<Rightarrow> st
      | Some target' \<Rightarrow>
          (let newDay = dayKeys ! nat (nextIndex direction (day target'));
               offsetMinutes = (if direction = Next then 60 else - 60);
               k = uuid_next st
           in st\<lparr>sessions := sessions st @
                    [target'\<lparr>id_s := uuid k,
                             day := newDay,
                             start := adjustTime offsetMinutes (start target'),
                             end_s := adjustTime offsetMinutes (end_s target'),
                             notes_s := notes_s target' @ duplicated_mark @
                               (if direction = Next then ''forward'' else ''backward'') @
                               '' on '' @ today,
                             exercises := with_fresh_ids uuid (Suc k) (exercises target')\<rparr>],
                 uuid_next := Suc k + length (exercises target')\<rparr>))"

definition removeSession :: "string \<Rightarrow> Scheduler \<Rightarrow> Scheduler" where
  "removeSession sessionId st =
     st\<lparr>sessions := filter (\<lambda>session. id_s session \<noteq> sessionId) (sessions st)\<rparr>"

subsection \<open>The derived views\<close>

text \<open>
  \<open>grouped\<close>: \<open>dayKeys.reduce\<close> fills an object with one entry for each day, the sessions of
  that day sorted by \<open>a.start.localeCompare(b.start)\<close>.
\<close>

definition grouped :: "SessionPlan list \<Rightarrow> (DayKey \<rightharpoonup> SessionPlan list)" where
  "grouped ss =
     foldl (\<lambda>acc d. acc(d \<mapsto>
              sort_js (\<lambda>a b. localeCompare (start a) (start b))
                (filter (\<lambda>session. day session = d) ss)))
       Map.empty dayKeys"

definition compare_sessions :: "SessionPlan \<Rightarrow> SessionPlan \<Rightarrow> int" where
  "compare_sessions a b =
     (let dayIndex = indexOf dayKeys (day a) - indexOf dayKeys (day b)
      in if dayIndex \<noteq> 0 then dayIndex else localeCompare (start a) (start b))"

text \<open>\<open>nextSessionId\<close>; \<open>null\<close> is \<open>None\<close>.\<close>

definition nextSessionId :: "SessionPlan list \<Rightarrow> string option" where
  "nextSessionId ss =
     (if length ss = 0 then None
      else (let upcoming = sort_js compare_sessions ss
            in map_option id_s (at upcoming 0)))"

subsection \<open>Runs of the component\<close>

datatype Action =
    HandleSessionChange SessionField
  | HandleExerciseChange string ExerciseField
  | SetsOnChange string "int option"
  | AddExerciseDraft
  | RemoveExerciseDraft string
  | AddSession
  | ApplyTemplateToDay DayKey nat
  | ClearDay DayKey
  | DuplicateSession string Direction
  | RemoveSession string

fun step :: "uuid_source \<Rightarrow> string \<Rightarrow> Action \<Rightarrow> Scheduler \<Rightarrow> error + Scheduler" where
  "step uuid today (HandleSessionChange kv) st = Inr (handleSessionChange kv st)"
| "step uuid today (HandleExerciseChange i kv) st = Inr (handleExerciseChange i kv st)"
| "step uuid today (SetsOnChange i v) st = Inr (setsOnChange i v st)"
| "step uuid today AddExerciseDraft st = Inr (addExerciseDraft uuid st)"
| "step uuid today (RemoveExerciseDraft i) st = Inr (removeExerciseDraft i st)"
| "step uuid today AddSession st = Inr (addSession uuid None st)"
| "step uuid today (ApplyTemplateToDay d n) st = applyTemplateToDay uuid d n st"
| "step uuid today (ClearDay d) st = Inr (clearDay d st)"
| "step uuid today (DuplicateSession i direction) st = Inr (duplicateSession uuid today i direction st)"
| "step uuid today (RemoveSession i) st = Inr (removeSession i st)"

fun run :: "uuid_source \<Rightarrow> string \<Rightarrow> Action list \<Rightarrow> Scheduler \<Rightarrow> error + Scheduler" where
  "run uuid today [] st = Inr st"
| "run uuid today (a # as) st =
     (case step uuid today a st of Inl e \<Rightarrow> Inl e | Inr st' \<Rightarrow> run uuid today as st')"

text \<open>The actions that the specification names as creating a session.\<close>

fun creates_session :: "Action \<Rightarrow> bool" where
  "creates_session AddSession = True"
| "creates_session (ApplyTemplateToDay d n) = True"
| "creates_session (DuplicateSession i direction) = True"
| "creates_session a = False"

text \<open>A sample of identifiers and a date, for evaluating the model on concrete runs.\<close>

definition sample_uuid :: uuid_source where
  "sample_uuid n = ''id-'' @ nat_digits n"

definition sample_today :: string where
  "sample_today = ''Nov 2''"

text \<open>White-space-only or empty text: every character of the text is white space.\<close>

definition blank :: "string \<Rightarrow> bool" where
  "blank s = list_all is_space (utf8_chars s)"

text \<open>The day after and the day before in the cycle Monday .. Sunday.\<close>

fun day_after :: "DayKey \<Rightarrow> DayKey" where
  "day_after Monday = Tuesday"
| "day_after Tuesday = Wednesday"
| "day_after Wednesday = Thursday"
| "day_after Thursday = Friday"
| "day_after Friday = Saturday"
| "day_after Saturday = Sunday"
| "day_after Sunday = Monday"

fun day_before :: "DayKey \<Rightarrow> DayKey" where
  "day_before Monday = Sunday"
| "day_before Tuesday = Monday"
| "day_before Wednesday = Tuesday"
| "day_before Thursday = Wednesday"
| "day_before Friday = Thursday"
| "day_before Saturday = Friday"
| "day_before Sunday = Saturday"

text \<open>
  The order of \<open>nextSessionId\<close> in the words of the specification: first the position of
  the day in the week that starts on Monday, then the start times as texts.
\<close>

fun day_index :: "DayKey \<Rightarrow> nat" where
  "day_index Monday = 0"
| "day_index Tuesday = 1"
| "day_index Wednesday = 2"
| "day_index Thursday = 3"
| "day_index Friday = 4"
| "day_index Saturday = 5"
| "day_index Sunday = 6"

definition soonest_le :: "SessionPlan \<Rightarrow> SessionPlan \<Rightarrow> bool" where
  "soonest_le a b \<longleftrightarrow>
     day_index (day a) < day_index (day b) \<or>
     (day_index (day a) = day_index (day b) \<and> start a \<le> start b)"

text \<open>
  The invariant of the identifiers: the session ids of the store are pairwise distinct and
  were all drawn from the source before.
\<close>

definition session_ids_fresh :: "uuid_source \<Rightarrow> Scheduler \<Rightarrow> bool" where
  "session_ids_fresh uuid st \<longleftrightarrow>
     distinct (map id_s (sessions st)) \<and>
     (\<forall>s\<in>set (sessions st). \<exists>k<uuid_next st. id_s s = uuid k)"

text \<open>A sample store of three sessions: the seeded one, an added one, a copy.\<close>

definition sample_state :: Scheduler where
  "sample_state =
     duplicateSession sample_uuid sample_today (sample_uuid 10) Previous
       (addSession sample_uuid None (initialState sample_uuid))"

text \<open>
  A name of white space only: a no-break space (U+00A0), a space and an ideographic space
  (U+3000); and the initial state with this name typed into its draft.
\<close>

definition sample_blank_name :: string where
  "sample_blank_name = [CHR 0xC2, CHR 0xA0, CHR '' '', CHR 0xE3, CHR 0x80, CHR 0x80]"

definition sample_blank_state :: Scheduler where
  "sample_blank_state =
     handleExerciseChange (sample_uuid 11) (E_name sample_blank_name) (initialState sample_uuid)"

section \<open>Digits, remainders and the time shift\<close>

lemma digit_val_range: "is_digit c \<Longrightarrow> 0 \<le> digit_val c \<and> digit_val c < 10"
  by (auto simp: is_digit_def digit_val_def)

lemma digit_char_digit_val: "is_digit c \<Longrightarrow> digit_char (digit_val c) = c"
  by (auto simp: is_digit_def digit_val_def digit_char_def)

lemma is_digit_not_sep:
  "is_digit c \<Longrightarrow> c \<noteq> CHR '':'' \<and> c \<noteq> CHR ''-'' \<and> c \<noteq> CHR ''+''"
  by (auto simp: is_digit_def)

text \<open>A digit is a character of its own, and it is not white space.\<close>

lemma is_digit_not_cont: "is_digit c \<Longrightarrow> \<not> is_cont c"
  by (auto simp: is_digit_def is_cont_def)

lemma is_digit_not_space: "is_digit c \<Longrightarrow> \<not> is_space [c]"
  by (auto simp: is_digit_def is_space_def code_point_def white_space_points_def)

lemma utf8_chars_two_digits:
  assumes "is_digit a" "is_digit b"
  shows "utf8_chars [a, b] = [[a], [b]]"
  using assms [THEN is_digit_not_cont] by simp

lemma skip_space_two_digits:
  assumes "is_digit a" "is_digit b"
  shows "concat (dropWhile is_space (utf8_chars [a, b])) = [a, b]"
proof -
  have "dropWhile is_space [[a], [b]] = [[a], [b]]"
    using is_digit_not_space [OF assms(1)] by simp
  then show ?thesis by (simp only: utf8_chars_two_digits [OF assms]) simp
qed

lemma digit_cases:
  assumes "0 \<le> d" "d < 10"
  shows "d = 0 \<or> d = 1 \<or> d = 2 \<or> d = 3 \<or> d = 4 \<or> d = 5 \<or> d = 6 \<or> d = 7 \<or> d = 8 \<or> d = (9::int)"
  using assms by arith

lemma is_digit_digit_char:
  "0 \<le> d \<Longrightarrow> d < 10 \<Longrightarrow> is_digit (digit_char d) \<and> digit_val (digit_char d) = d"
  using digit_cases [of d] by (auto simp: is_digit_def digit_val_def digit_char_def)

lemma digit_char_0: "digit_char 0 = CHR ''0''"
  by (simp add: digit_char_def)

lemma js_rem_nonneg: "0 \<le> a \<Longrightarrow> 0 < b \<Longrightarrow> js_rem a b = a mod b"
  by (cases "a = 0") (simp_all add: js_rem_def)

lemma js_rem_neg: "a < 0 \<Longrightarrow> 0 < b \<Longrightarrow> js_rem a b = - ((- a) mod b)"
  by (simp add: js_rem_def)

text \<open>
  The normalisation \<open>((m % 1440) + 1440) % 1440\<close> of the source, with the truncating
  remainder, is the floor remainder of \<open>m\<close> by 1440.
\<close>

lemma js_normalize: "js_rem (js_rem v 1440 + 1440) 1440 = v mod 1440"
proof (cases "0 \<le> v")
  case True
  then have "js_rem v 1440 = v mod 1440" by (simp add: js_rem_nonneg)
  moreover have "0 \<le> v mod 1440 + 1440" using pos_mod_sign [of 1440 v] by linarith
  ultimately show ?thesis by (simp add: js_rem_nonneg)
next
  case False
  then have r: "js_rem v 1440 = - ((- v) mod 1440)" by (simp add: js_rem_neg)
  have "(- v) mod 1440 < 1440" by simp
  then have "0 \<le> - ((- v) mod 1440) + 1440" by linarith
  then have "js_rem (js_rem v 1440 + 1440) 1440 = (- ((- v) mod 1440) + 1440) mod 1440"
    unfolding r by (rule js_rem_nonneg) simp
  also have "\<dots> = v mod 1440" by (simp add: mod_minus_eq)
  finally show ?thesis .
qed

lemma nat_digits_small: "n < 10 \<Longrightarrow> nat_digits n = [digit_char (int n)]"
  by (subst nat_digits.simps) simp

lemma nat_digits_two:
  assumes "10 \<le> n" "n < 100"
  shows "nat_digits n = [digit_char (int (n div 10)), digit_char (int (n mod 10))]"
proof -
  from assms have "n div 10 < 10" by simp
  then have "nat_digits (n div 10) = [digit_char (int (n div 10))]" by (rule nat_digits_small)
  moreover from assms have "nat_digits n = nat_digits (n div 10) @ [digit_char (int (n mod 10))]"
    by (subst nat_digits.simps) simp
  ultimately show ?thesis by simp
qed

lemma pad_two:
  assumes "0 \<le> k" "k < 100"
  shows "padStart 2 CHR ''0'' (toString (Some k)) = [digit_char (k div 10), digit_char (k mod 10)]"
proof (cases "k < 10")
  case True
  with assms have "nat_digits (nat k) = [digit_char k]"
    by (simp add: nat_digits_small)
  moreover from True assms have "k div 10 = 0" "k mod 10 = k" by simp_all
  ultimately show ?thesis using assms by (simp add: padStart_def toString_def digit_char_0)
next
  case False
  with assms have "10 \<le> nat k" "nat k < 100" by linarith+
  then have "nat_digits (nat k) = [digit_char (int (nat k div 10)), digit_char (int (nat k mod 10))]"
    by (rule nat_digits_two)
  moreover from assms have "int (nat k div 10) = k div 10" "int (nat k mod 10) = k mod 10"
    by (simp_all add: zdiv_int zmod_int)
  ultimately show ?thesis using assms by (simp add: padStart_def toString_def)
qed

lemma digits_value_two: "digits_value [a, b] = 10 * digit_val a + digit_val b"
  by (simp add: digits_value_def)

lemma parseInt_two_digits:
  assumes "is_digit a" "is_digit b"
  shows "parseInt (Some [a, b]) = Some (10 * digit_val a + digit_val b)"
proof -
  have "parseInt (Some [a, b]) =
     (let t = [a, b];
          neg = (case t of c # _ \<Rightarrow> c = CHR ''-'' | [] \<Rightarrow> False);
          u = (case t of c # r \<Rightarrow> if c = CHR ''-'' \<or> c = CHR ''+'' then r else t | [] \<Rightarrow> t);
          ds = takeWhile is_digit u
      in if ds = [] then None
         else Some (if neg then - digits_value ds else digits_value ds))"
    by (simp only: parseInt_def option.case skip_space_two_digits [OF assms])
  also have "\<dots> = Some (10 * digit_val a + digit_val b)"
    using assms is_digit_not_sep [of a] by (simp add: digits_value_two Let_def)
  finally show ?thesis .
qed

lemma nth_five: "[a, b, c, d, e] ! 0 = a" "[a, b, c, d, e] ! 1 = b" "[a, b, c, d, e] ! 2 = c"
  "[a, b, c, d, e] ! 3 = d" "[a, b, c, d, e] ! 4 = e"
  by (simp_all add: eval_nat_numeral)

lemma valid_time_shape:
  assumes "valid_time t"
  obtains a b c d where "t = [a, b, CHR '':'', c, d]" "is_digit a" "is_digit b" "is_digit c" "is_digit d"
    "10 * digit_val a + digit_val b < 24" "10 * digit_val c + digit_val d < 60"
proof -
  from assms have len: "length t = 5" by (simp add: valid_time_def)
  then obtain a b s c d where t: "t = [a, b, s, c, d]"
    by (auto simp: length_Suc_conv eval_nat_numeral)
  with assms show thesis
    by (intro that [of a b c d]) (simp_all add: valid_time_def hour_of_def minute_of_def)
qed

lemma tens_digit: "0 \<le> (x::int) \<Longrightarrow> x < 100 \<Longrightarrow> 0 \<le> x div 10 \<and> x div 10 < 10"
  by presburger

lemma units_digit: "0 \<le> (x::int) mod 10 \<and> x mod 10 < 10"
  by simp

lemma two_digits: "10 * (x div 10) + x mod 10 = (x::int)"
  by simp

lemma hour_bound: "0 \<le> (n::int) \<Longrightarrow> n < 1440 \<Longrightarrow> 0 \<le> n div 60 \<and> n div 60 < 24"
  by presburger

lemma valid_time_clock:
  assumes "0 \<le> n" "n < 1440"
  shows "valid_time (clock n) \<and> since_midnight (clock n) = n"
proof -
  have hb: "0 \<le> n div 60" "n div 60 < 24"
    using hour_bound [OF assms] by blast+
  have mb: "0 \<le> n mod 60" "n mod 60 < 60" by simp_all
  have h100: "n div 60 < 100" by (rule less_trans [OF hb(2)]) simp
  have m100: "n mod 60 < 100" by (rule less_trans [OF mb(2)]) simp
  note d1 = tens_digit [OF hb(1) h100, THEN conjunct1] tens_digit [OF hb(1) h100, THEN conjunct2]
  note d2 = units_digit [of "n div 60", THEN conjunct1] units_digit [of "n div 60", THEN conjunct2]
  note d3 = tens_digit [OF mb(1) m100, THEN conjunct1] tens_digit [OF mb(1) m100, THEN conjunct2]
  note d4 = units_digit [of "n mod 60", THEN conjunct1] units_digit [of "n mod 60", THEN conjunct2]
  note D = is_digit_digit_char [OF d1] is_digit_digit_char [OF d2] is_digit_digit_char [OF d3]
    is_digit_digit_char [OF d4]
  note V = D [THEN conjunct2]
  have hh: "hour_of (clock n) = n div 60"
    unfolding hour_of_def clock_def nth_five V by (rule two_digits)
  have mm: "minute_of (clock n) = n mod 60"
    unfolding minute_of_def clock_def nth_five V by (rule two_digits)
  have len: "length (clock n) = 5" by (simp add: clock_def)
  have digs: "is_digit (clock n ! 0)" "is_digit (clock n ! 1)" "is_digit (clock n ! 3)"
    "is_digit (clock n ! 4)"
    unfolding clock_def nth_five using D by blast+
  have colon: "clock n ! 2 = CHR '':''" unfolding clock_def nth_five by (rule refl)
  have "hour_of (clock n) < 24" "minute_of (clock n) < 60"
    unfolding hh mm by (rule hb(2), rule mb(2))
  with len digs colon have "valid_time (clock n)"
    unfolding valid_time_def by (intro conjI)
  moreover have "since_midnight (clock n) = n"
    unfolding since_midnight_def hh mm by simp
  ultimately show ?thesis ..
qed

text \<open>On a valid time, \<open>adjustTime\<close> is the clock text of the shifted minutes.\<close>

lemma adjustTime_clock:
  assumes "valid_time t"
  shows "adjustTime off t = clock ((since_midnight t + off) mod 1440)"
proof -
  from assms obtain a b c d where t: "t = [a, b, CHR '':'', c, d]"
    and dig: "is_digit a" "is_digit b" "is_digit c" "is_digit d"
    by (rule valid_time_shape)
  define n where "n = (since_midnight t + off) mod 1440"
  have n: "0 \<le> n" "n < 1440" by (simp_all add: n_def)
  have sp: "split CHR '':'' t = [[a, b], [c, d]]"
    using dig is_digit_not_sep unfolding t by simp
  have at0: "at (split CHR '':'' t) 0 = Some [a, b]" and at1: "at (split CHR '':'' t) 1 = Some [c, d]"
    by (simp_all add: sp)
  have ph: "parseInt (Some [a, b]) = Some (hour_of t)"
    unfolding hour_of_def t nth_five by (rule parseInt_two_digits [OF dig(1,2)])
  have pm: "parseInt (Some [c, d]) = Some (minute_of t)"
    unfolding minute_of_def t nth_five by (rule parseInt_two_digits [OF dig(3,4)])
  have hb: "0 \<le> n div 60" "n div 60 < 24" using hour_bound [OF n] by blast+
  have h: "n div 60 < 100" by (rule less_trans [OF hb(2)]) simp
  have m: "0 \<le> n mod 60" "n mod 60 < 100" "js_rem n 60 = n mod 60"
    using n by (simp_all add: js_rem_nonneg less_trans [OF pos_mod_bound [of 60 n]])
  have "adjustTime off t =
      padStart 2 CHR ''0'' (toString (Some (n div 60))) @ '':'' @ padStart 2 CHR ''0'' (toString (Some (n mod 60)))"
    unfolding adjustTime_def Let_def at0 at1 ph pm
    by (simp add: js_normalize n_def [symmetric] since_midnight_def [symmetric] m(3))
  also have "\<dots> = clock n"
    unfolding pad_two [OF hb(1) h] pad_two [OF m(1,2)] by (simp add: clock_def)
  finally show ?thesis by (simp add: n_def)
qed

lemma split_quot_rem:
  fixes q :: int
  assumes "0 \<le> r" "r < k" "0 \<le> r'" "r' < k" "q * k + r = q' * k + r'"
  shows "q = q' \<and> r = r'"
proof -
  have "(q * k + r) div k = q"
    by (rule int_div_pos_eq [of _ k q r]) (use assms in \<open>simp_all add: mult.commute\<close>)
  moreover have "(q' * k + r') div k = q'"
    by (rule int_div_pos_eq [of _ k q' r']) (use assms in \<open>simp_all add: mult.commute\<close>)
  ultimately have "q = q'" using assms(5) by simp
  with assms(5) show ?thesis by simp
qed

lemma two_digit_inj:
  assumes "is_digit a" "is_digit b" "is_digit a'" "is_digit b'"
    "10 * digit_val a + digit_val b = 10 * digit_val a' + digit_val b'"
  shows "a = a' \<and> b = b'"
proof -
  note R = assms(1-4) [THEN digit_val_range]
  have "digit_val a * 10 + digit_val b = digit_val a' * 10 + digit_val b'"
    using assms(5) by (simp add: mult.commute)
  from split_quot_rem [OF _ _ _ _ this] R
  have "digit_val a = digit_val a'" "digit_val b = digit_val b'" by blast+
  then have "digit_char (digit_val a) = digit_char (digit_val a')"
    "digit_char (digit_val b) = digit_char (digit_val b')" by simp_all
  then show ?thesis using assms(1-4) by (simp add: digit_char_digit_val)
qed

text \<open>A valid time is determined by its minutes since midnight.\<close>

lemma since_midnight_inj:
  assumes "valid_time s" "valid_time t" "since_midnight s = since_midnight t"
  shows "s = t"
proof -
  from assms(1) obtain a b c d where s: "s = [a, b, CHR '':'', c, d]"
    and ds: "is_digit a" "is_digit b" "is_digit c" "is_digit d"
    and bs: "10 * digit_val c + digit_val d < 60"
    by (rule valid_time_shape)
  from assms(2) obtain a' b' c' d' where t: "t = [a', b', CHR '':'', c', d']"
    and dt: "is_digit a'" "is_digit b'" "is_digit c'" "is_digit d'"
    and bt: "10 * digit_val c' + digit_val d' < 60"
    by (rule valid_time_shape)
  note R = ds [THEN digit_val_range] dt [THEN digit_val_range]
  from assms(3) have e: "(10 * digit_val a + digit_val b) * 60 + (10 * digit_val c + digit_val d)
      = (10 * digit_val a' + digit_val b') * 60 + (10 * digit_val c' + digit_val d')"
    unfolding since_midnight_def hour_of_def minute_of_def s t nth_five .
  have m1: "0 \<le> 10 * digit_val c + digit_val d" "0 \<le> 10 * digit_val c' + digit_val d'"
    using R by linarith+
  from split_quot_rem [OF m1(1) bs m1(2) bt e]
  have e1: "10 * digit_val a + digit_val b = 10 * digit_val a' + digit_val b'"
    and e2: "10 * digit_val c + digit_val d = 10 * digit_val c' + digit_val d'" by blast+
  from two_digit_inj [OF ds(1,2) dt(1,2) e1] two_digit_inj [OF ds(3,4) dt(3,4) e2]
  show ?thesis unfolding s t by simp
qed

text \<open>
  C1. For every valid zero-padded time \<open>HH:MM\<close> and every offset, in particular \<open>+60\<close> and
  \<open>-60\<close>, \<open>adjustTime\<close> returns a valid zero-padded time whose minutes since midnight are
  \<open>((hours * 60 + minutes + offset) mod 1440 + 1440) mod 1440\<close>; a valid time is the only
  one with its minutes since midnight (\<open>since_midnight_inj\<close>). \<open>23:30\<close> shifted by \<open>+60\<close>
  is \<open>00:30\<close>, and \<open>00:20\<close> shifted by \<open>-60\<close> is \<open>23:20\<close>.
\<close>

theorem adjustTime_shift:
  assumes "valid_time t"
  shows "valid_time (adjustTime offsetMinutes t) \<and>
         since_midnight (adjustTime offsetMinutes t) =
           ((hour_of t * 60 + minute_of t + offsetMinutes) mod 1440 + 1440) mod 1440 \<and>
         adjustTime 60 ''23:30'' = ''00:30'' \<and>
         adjustTime (- 60) ''00:20'' = ''23:20''"
proof -
  have "0 \<le> (since_midnight t + offsetMinutes) mod 1440"
    "(since_midnight t + offsetMinutes) mod 1440 < 1440" by simp_all
  from valid_time_clock [OF this]
  have "valid_time (adjustTime offsetMinutes t) \<and>
        since_midnight (adjustTime offsetMinutes t) =
          ((hour_of t * 60 + minute_of t + offsetMinutes) mod 1440 + 1440) mod 1440"
    by (simp add: adjustTime_clock [OF assms] since_midnight_def)
  moreover have "adjustTime 60 ''23:30'' = ''00:30''" by code_simp
  moreover have "adjustTime (- 60) ''00:20'' = ''23:20''" by code_simp
  ultimately show ?thesis by blast
qed

theorem adjustTime_shift_witness:
  "valid_time ''23:30'' \<and> valid_time (adjustTime 60 ''23:30'') \<and>
   since_midnight (adjustTime 60 ''23:30'') = 30"
proof -
  have h: "valid_time ''23:30''" by code_simp
  have e: "((hour_of ''23:30'' * 60 + minute_of ''23:30'' + 60) mod 1440 + 1440) mod 1440 = 30"
    by code_simp
  from adjustTime_shift [OF h, of 60]
  have "valid_time (adjustTime 60 ''23:30'')" "since_midnight (adjustTime 60 ''23:30'') = 30"
    unfolding e by blast+
  with h show ?thesis by blast
qed

section \<open>Facts about the sample runs\<close>

lemma initial_sessions:
  "\<exists>s. sessions (initialState uuid) = [s] \<and> id_s s = uuid 10 \<and> day s = Monday"
  by (simp add: initialState_def initialSessionForm_def)

lemma sample_uuid_not_none: "sample_uuid n \<noteq> ''none''"
  by (simp add: sample_uuid_def)

lemma sample_sessions:
  "map (\<lambda>s. (id_s s, day s, start s)) (sessions sample_state) =
     [(''id-10'', Monday, ''07:00''), (''id-13'', Monday, ''07:00''), (''id-15'', Sunday, ''06:00'')]"
  by code_simp

section \<open>Sorting, comparing and the derived views\<close>

lemma mset_insert_sorted: "mset (insert_sorted cmp x xs) = add_mset x (mset xs)"
  by (induction xs) auto

lemma mset_sort_js: "mset (sort_js cmp xs) = mset xs"
  by (induction xs) (auto simp: sort_js_def mset_insert_sorted)

lemma set_sort_js: "set (sort_js cmp xs) = set xs"
  using mset_sort_js [of cmp xs] by (metis set_mset_mset)

lemma length_sort_js: "length (sort_js cmp xs) = length xs"
  using mset_sort_js [of cmp xs] by (metis size_mset)

lemma set_insert_sorted: "set (insert_sorted cmp x xs) = insert x (set xs)"
  using mset_insert_sorted [of cmp x xs] by (metis set_mset_add_mset_insert set_mset_mset)

lemma sorted_insert_sorted:
  assumes total: "\<And>a b. cmp a b \<le> 0 \<or> cmp b a \<le> 0"
    and trans: "\<And>a b c. cmp a b \<le> 0 \<Longrightarrow> cmp b c \<le> 0 \<Longrightarrow> cmp a c \<le> 0"
    and "sorted_wrt (\<lambda>a b. cmp a b \<le> 0) xs"
  shows "sorted_wrt (\<lambda>a b. cmp a b \<le> 0) (insert_sorted cmp x xs)"
  using assms(3)
proof (induction xs)
  case Nil
  then show ?case by simp
next
  case (Cons y ys)
  show ?case
  proof (cases "cmp x y \<le> 0")
    case True
    with Cons.prems trans show ?thesis by auto
  next
    case False
    with total [of x y] have "cmp y x \<le> 0" by blast
    with False Cons show ?thesis by (auto simp: set_insert_sorted)
  qed
qed

lemma sorted_sort_js:
  assumes total: "\<And>a b. cmp a b \<le> 0 \<or> cmp b a \<le> 0"
    and trans: "\<And>a b c. cmp a b \<le> 0 \<Longrightarrow> cmp b c \<le> 0 \<Longrightarrow> cmp a c \<le> 0"
  shows "sorted_wrt (\<lambda>a b. cmp a b \<le> 0) (sort_js cmp xs)"
proof (induction xs)
  case Nil
  show ?case by (simp add: sort_js_def)
next
  case (Cons x xs)
  have "sort_js cmp (x # xs) = insert_sorted cmp x (sort_js cmp xs)" by (simp add: sort_js_def)
  with sorted_insert_sorted [of cmp "sort_js cmp xs" x, OF total trans Cons] show ?case by simp
qed

text \<open>
  The comparator of the start times decides the lexicographic order of the texts, so it is
  a consistent comparator: total, transitive, and zero only on equal texts.
\<close>

lemma localeCompare_le: "localeCompare a b \<le> 0 \<longleftrightarrow> a \<le> b"
  by (induction a b rule: localeCompare.induct) (auto simp: less_char_def)

lemma localeCompare_eq: "localeCompare a b = 0 \<longleftrightarrow> a = b"
  by (induction a b rule: localeCompare.induct) auto

lemma indexOf_dayKeys: "indexOf dayKeys d = int (day_index d)"
  by (cases d) (simp_all add: dayKeys_def)

lemma compare_sessions_le: "compare_sessions a b \<le> 0 \<longleftrightarrow> soonest_le a b"
  by (auto simp: compare_sessions_def soonest_le_def indexOf_dayKeys Let_def localeCompare_le)

lemma soonest_le_total: "soonest_le a b \<or> soonest_le b a"
  by (auto simp: soonest_le_def)

lemma soonest_le_trans: "soonest_le a b \<Longrightarrow> soonest_le b c \<Longrightarrow> soonest_le a c"
  by (auto simp: soonest_le_def)

text \<open>
  C3. \<open>nextSessionId\<close> is \<open>null\<close> exactly when the store is empty. For a store that is not
  empty it is the identifier of a session of the store that is minimal in the order
  \<open>soonest_le\<close>: first the position of the day in the week Monday = 0 .. Sunday = 6, then the
  lexicographic order of the start times.
\<close>

theorem nextSessionId_soonest:
  "(nextSessionId ss = None \<longleftrightarrow> ss = []) \<and>
   (ss \<noteq> [] \<longrightarrow>
      (\<exists>s\<in>set ss. nextSessionId ss = Some (id_s s) \<and> (\<forall>t\<in>set ss. soonest_le s t)))"
proof (cases "ss = []")
  case True
  then show ?thesis by (simp add: nextSessionId_def)
next
  case False
  define upcoming where "upcoming = sort_js compare_sessions ss"
  have "length upcoming = length ss" by (simp add: upcoming_def length_sort_js)
  with False obtain s rest where up: "upcoming = s # rest" by (cases upcoming) auto
  have srt: "sorted_wrt (\<lambda>a b. compare_sessions a b \<le> 0) upcoming"
    unfolding upcoming_def
    by (rule sorted_sort_js) (use soonest_le_total soonest_le_trans in \<open>auto simp: compare_sessions_le\<close>)
  have "soonest_le s s" using soonest_le_total [of s s] by blast
  with srt have "\<forall>t\<in>set upcoming. soonest_le s t"
    unfolding up by (auto simp: compare_sessions_le)
  then have min: "\<forall>t\<in>set ss. soonest_le s t" by (simp add: upcoming_def set_sort_js)
  have mem: "s \<in> set ss" using up set_sort_js [of compare_sessions ss] by (auto simp: upcoming_def)
  have res: "nextSessionId ss = Some (id_s s)"
    using False up by (simp add: nextSessionId_def upcoming_def [symmetric] Let_def)
  from mem res min False show ?thesis by auto
qed

theorem nextSessionId_soonest_witness:
  "sessions sample_state \<noteq> [] \<and>
   (\<exists>s. s \<in> set (sessions sample_state) \<and> nextSessionId (sessions sample_state) = Some (id_s s) \<and>
        soonest_le s (last (sessions sample_state)))"
proof -
  have "length (sessions sample_state) = 3"
    using arg_cong [OF sample_sessions, of length] by simp
  then have ne: "sessions sample_state \<noteq> []" by auto
  then have "last (sessions sample_state) \<in> set (sessions sample_state)" by simp
  with nextSessionId_soonest [of "sessions sample_state"] ne show ?thesis by blast
qed

lemma grouped_eq:
  "grouped ss d =
     Some (sort_js (\<lambda>a b. localeCompare (start a) (start b)) (filter (\<lambda>session. day session = d) ss))"
  by (cases d) (simp_all add: grouped_def dayKeys_def)

lemma UNIV_dayKeys: "UNIV = set dayKeys"
proof -
  have "d \<in> set dayKeys" for d by (cases d) (simp_all add: dayKeys_def)
  then show ?thesis by blast
qed

lemma card_DayKey: "card (UNIV :: DayKey set) = 7"
proof -
  have "distinct dayKeys" by (simp add: dayKeys_def)
  then have "card (set dayKeys) = length dayKeys" by (rule distinct_card)
  then show ?thesis by (simp add: UNIV_dayKeys) (simp add: dayKeys_def)
qed

lemma sorted_by_start:
  "sorted_wrt (\<lambda>a b. start a \<le> start b) (sort_js (\<lambda>a b. localeCompare (start a) (start b)) xs)"
proof -
  have "sorted_wrt (\<lambda>a b. localeCompare (start a) (start b) \<le> 0)
          (sort_js (\<lambda>a b. localeCompare (start a) (start b)) xs)"
    by (rule sorted_sort_js) (auto simp: localeCompare_le)
  then show ?thesis by (simp add: localeCompare_le)
qed

text \<open>
  C8. \<open>grouped\<close> has an entry for each of the seven days and no other. The entry of a day
  holds exactly the sessions of that day, each as often as the store holds it, so a session
  of the store is in the bucket of its day and in no other; and each bucket is in
  non-decreasing lexicographic order of the start times.
\<close>

theorem grouped_partition:
  "dom (grouped ss) = set dayKeys \<and> card (dom (grouped ss)) = 7 \<and>
   (\<forall>d. \<exists>bucket. grouped ss d = Some bucket \<and>
      mset bucket = filter_mset (\<lambda>session. day session = d) (mset ss) \<and>
      sorted_wrt (\<lambda>a b. start a \<le> start b) bucket) \<and>
   (\<forall>s\<in>set ss. \<forall>d bucket. grouped ss d = Some bucket \<longrightarrow> (s \<in> set bucket \<longleftrightarrow> day s = d))"
proof -
  have d: "dom (grouped ss) = UNIV" by (auto simp: grouped_eq)
  have b: "\<exists>bucket. grouped ss d = Some bucket \<and>
      mset bucket = filter_mset (\<lambda>session. day session = d) (mset ss) \<and>
      sorted_wrt (\<lambda>a b. start a \<le> start b) bucket" for d
    by (simp add: grouped_eq mset_sort_js sorted_by_start)
  have m: "\<forall>s\<in>set ss. \<forall>d bucket. grouped ss d = Some bucket \<longrightarrow> (s \<in> set bucket \<longleftrightarrow> day s = d)"
    by (auto simp: grouped_eq set_sort_js)
  from d b m show ?thesis by (simp add: card_DayKey UNIV_dayKeys [symmetric])
qed

theorem grouped_partition_witness:
  "hd (sessions (initialState sample_uuid)) \<in> set (sessions (initialState sample_uuid)) \<and>
   (\<exists>bucket. grouped (sessions (initialState sample_uuid)) Monday = Some bucket \<and>
      hd (sessions (initialState sample_uuid)) \<in> set bucket) \<and>
   (\<exists>bucket. grouped (sessions (initialState sample_uuid)) Tuesday = Some bucket \<and>
      hd (sessions (initialState sample_uuid)) \<notin> set bucket)"
proof -
  from initial_sessions [of sample_uuid] obtain s where
    s: "sessions (initialState sample_uuid) = [s]" "day s = Monday" by blast
  then have m: "hd (sessions (initialState sample_uuid)) \<in> set (sessions (initialState sample_uuid))"
    and d: "day (hd (sessions (initialState sample_uuid))) = Monday" by simp_all
  from grouped_partition [of "sessions (initialState sample_uuid)"] m d show ?thesis
    by (metis DayKey.distinct(1))
qed

section \<open>Adding and duplicating sessions\<close>

lemma utf8_chars_nonempty: "[] \<notin> set (utf8_chars s)"
  by (induction s rule: utf8_chars.induct) auto

lemma concat_utf8_chars: "concat (utf8_chars s) = s"
  by (induction s rule: utf8_chars.induct) auto

lemma strip_both_Nil_iff:
  "rev (dropWhile P (rev (dropWhile P xs))) = [] \<longleftrightarrow> (\<forall>x\<in>set xs. P x)"
proof
  assume "\<forall>x\<in>set xs. P x"
  then have dw: "dropWhile P xs = []" by (simp only: dropWhile_eq_Nil_conv)
  show "rev (dropWhile P (rev (dropWhile P xs))) = []"
    by (simp only: dw rev.simps dropWhile.simps)
next
  assume "rev (dropWhile P (rev (dropWhile P xs))) = []"
  then have a: "\<forall>x\<in>set (dropWhile P xs). P x" by (simp add: dropWhile_eq_Nil_conv)
  have "dropWhile P xs = []"
  proof (rule ccontr)
    assume ne: "dropWhile P xs \<noteq> []"
    then have "\<not> P (hd (dropWhile P xs))" by (rule hd_dropWhile)
    moreover from ne have "hd (dropWhile P xs) \<in> set (dropWhile P xs)" by simp
    ultimately show False using a by blast
  qed
  then show "\<forall>x\<in>set xs. P x" by (simp only: dropWhile_eq_Nil_conv)
qed

lemma set_strip_both: "set (rev (dropWhile P (rev (dropWhile P xs)))) \<subseteq> set xs"
proof
  fix x assume "x \<in> set (rev (dropWhile P (rev (dropWhile P xs))))"
  then have "x \<in> set (dropWhile P (rev (dropWhile P xs)))" by simp
  then have "x \<in> set (rev (dropWhile P xs))" by (rule set_dropWhileD)
  then have "x \<in> set (dropWhile P xs)" by simp
  then show "x \<in> set xs" by (rule set_dropWhileD)
qed

lemma concat_Nil_nonempty: "[] \<notin> set xss \<Longrightarrow> concat xss = [] \<longleftrightarrow> xss = []"
  by (cases xss) auto

text \<open>\<open>trim\<close> leaves nothing exactly of the texts that hold white space only.\<close>

lemma trim_Nil_iff: "trim s = [] \<longleftrightarrow> blank s"
proof -
  let ?kept = "rev (dropWhile is_space (rev (dropWhile is_space (utf8_chars s))))"
  have "[] \<notin> set ?kept"
    using set_strip_both [of is_space "utf8_chars s"] utf8_chars_nonempty [of s] by blast
  then have "concat ?kept = [] \<longleftrightarrow> ?kept = []" by (rule concat_Nil_nonempty)
  then show ?thesis
    by (simp only: trim_def blank_def list_all_iff strip_both_Nil_iff)
qed

lemma addSession_sessions:
  "\<exists>s. sessions (addSession uuid c st) = sessions st @ [s] \<and> exercises s \<noteq> []"
  by (simp add: addSession_def Let_def)

text \<open>
  C2. When every exercise draft has a blank name (empty, or white space only: every
  character is one that \<open>trim\<close> strips, U+00A0 and the other Unicode spaces among them),
  \<open>addSession()\<close> appends exactly one session, whose exercises are the one fallback exercise:
  name \<open>Full-Body Circuit\<close>, 5 sets, reps \<open>45s on / 15s off\<close>. So if every session had an
  exercise before, every session has one after.
\<close>

theorem addSession_all_blank:
  assumes "\<forall>e\<in>set (exerciseDrafts st). blank (name e)"
  shows "\<exists>s f. sessions (addSession uuid None st) = sessions st @ [s] \<and>
           exercises s = [f] \<and> name f = ''Full-Body Circuit'' \<and> sets f = 5 \<and>
           reps f = ''45s on / 15s off'' \<and> focus_e f = ''Conditioning'' \<and>
           notes_e f = ''Use sled, battle ropes, and med-ball slams'' \<and>
           ((\<forall>x\<in>set (sessions st). exercises x \<noteq> []) \<longrightarrow>
            (\<forall>x\<in>set (sessions (addSession uuid None st)). exercises x \<noteq> []))"
proof -
  from assms have "filter (\<lambda>exercise. length (trim (name exercise)) > 0) (exerciseDrafts st) = []"
    by (simp add: filter_empty_conv trim_Nil_iff)
  then show ?thesis by (simp add: addSession_def Let_def fallback_def)
qed

theorem addSession_all_blank_witness:
  "list_all (\<lambda>e. blank (name e)) (exerciseDrafts sample_blank_state) \<and>
   map name (exerciseDrafts sample_blank_state) = [sample_blank_name] \<and>
   map name (exercises (last (sessions (addSession sample_uuid None sample_blank_state)))) =
     [''Full-Body Circuit'']"
proof -
  have b: "blank sample_blank_name" by code_simp
  have d: "map name (exerciseDrafts sample_blank_state) = [sample_blank_name]"
    by (simp add: sample_blank_state_def handleExerciseChange_def initialState_def)
  then have h: "\<forall>e\<in>set (exerciseDrafts sample_blank_state). blank (name e)"
    using b by (auto simp: map_eq_Cons_conv)
  from addSession_all_blank [OF h, of sample_uuid] obtain s f where
    "sessions (addSession sample_uuid None sample_blank_state) =
       sessions sample_blank_state @ [s]"
    "exercises s = [f]" "name f = ''Full-Body Circuit''" by blast
  then have "map name (exercises (last (sessions (addSession sample_uuid None sample_blank_state)))) =
     [''Full-Body Circuit'']" by simp
  with h d show ?thesis by (simp add: list_all_iff)
qed

lemma nextIndex_Next: "nextIndex Next d = int (day_index (day_after d))"
  by (cases d) (simp_all add: nextIndex_def dayKeys_def js_rem_def)

lemma nextIndex_Previous: "nextIndex Previous d = int (day_index (day_before d))"
  by (cases d) (simp_all add: nextIndex_def dayKeys_def js_rem_def)

lemma dayKeys_nth: "dayKeys ! day_index d = d"
  by (cases d) (simp_all add: dayKeys_def)

lemma nextIndex_range: "0 \<le> nextIndex direction d \<and> nextIndex direction d < int (length dayKeys)"
  by (cases direction; cases d) (simp_all add: nextIndex_def dayKeys_def js_rem_def)

lemma duplicateSession_found:
  assumes "find (\<lambda>session. id_s session = i) (sessions st) = Some t"
  shows "sessions (duplicateSession uuid today i direction st) =
     sessions st @
       [t\<lparr>id_s := uuid (uuid_next st),
          day := (if direction = Next then day_after (day t) else day_before (day t)),
          start := adjustTime (if direction = Next then 60 else - 60) (start t),
          end_s := adjustTime (if direction = Next then 60 else - 60) (end_s t),
          notes_s := notes_s t @ duplicated_mark @
             (if direction = Next then ''forward'' else ''backward'') @ '' on '' @ today,
          exercises := with_fresh_ids uuid (Suc (uuid_next st)) (exercises t)\<rparr>]"
  using assms
  by (cases direction)
    (simp_all add: duplicateSession_def Let_def nextIndex_Next nextIndex_Previous dayKeys_nth)

lemma find_append_Some: "find P xs = Some t \<Longrightarrow> find P (xs @ ys) = Some t"
  by (induction xs) (auto split: if_splits)

lemma duplicateSession_not_found:
  assumes "find (\<lambda>session. id_s session = i) (sessions st) = None"
  shows "duplicateSession uuid today i direction st = st"
  using assms by (simp add: duplicateSession_def)

lemma day_after_index: "day_index (day_after d) = (day_index d + 1) mod 7"
  by (cases d) simp_all

lemma day_before_index: "day_index (day_before d) = (day_index d + 6) mod 7"
  by (cases d) simp_all

text \<open>
  C6. \<open>duplicateSession\<close> puts the copy on the day one position further in the cycle
  Monday .. Sunday for \<open>next\<close> and one position back for \<open>previous\<close>, both modulo 7: from
  Sunday \<open>next\<close> gives Monday, and from Monday \<open>previous\<close> gives Sunday.
\<close>

theorem duplicateSession_day:
  assumes "find (\<lambda>session. id_s session = i) (sessions st) = Some t"
  shows "day (last (sessions (duplicateSession uuid today i Next st))) = day_after (day t) \<and>
         day (last (sessions (duplicateSession uuid today i Previous st))) = day_before (day t) \<and>
         day_index (day_after (day t)) = (day_index (day t) + 1) mod 7 \<and>
         day_index (day_before (day t)) = (day_index (day t) + 6) mod 7 \<and>
         day_after Sunday = Monday \<and> day_before Monday = Sunday"
proof -
  note copy = duplicateSession_found [OF assms, of uuid today]
  have n: "day (last (sessions (duplicateSession uuid today i Next st))) = day_after (day t)"
    by (simp add: copy)
  have p: "day (last (sessions (duplicateSession uuid today i Previous st))) = day_before (day t)"
    by (simp add: copy)
  from n p show ?thesis by (simp add: day_after_index day_before_index)
qed

theorem duplicateSession_day_witness:
  "find (\<lambda>session. id_s session = sample_uuid 10) (sessions (initialState sample_uuid)) =
     Some (hd (sessions (initialState sample_uuid))) \<and>
   day (last (sessions (duplicateSession sample_uuid sample_today (sample_uuid 10) Previous
     (initialState sample_uuid)))) = Sunday"
proof -
  have f: "find (\<lambda>session. id_s session = sample_uuid 10) (sessions (initialState sample_uuid)) =
     Some (hd (sessions (initialState sample_uuid)))"
    and d: "day (hd (sessions (initialState sample_uuid))) = Monday"
    using initial_sessions [of sample_uuid] by auto
  from duplicateSession_day [OF f, of sample_uuid sample_today] d f show ?thesis by simp
qed

text \<open>
  C7. \<open>duplicateSession\<close> returns the state as it is when no session has the identifier.
  When one has, the session list is the old list with one session appended: every old
  position holds the session it held, the session that was found is still the one found,
  and the form and the drafts are as before.
\<close>

theorem duplicateSession_frame:
  "(find (\<lambda>session. id_s session = i) (sessions st) = None \<longrightarrow>
      duplicateSession uuid today i direction st = st) \<and>
   (\<forall>t. find (\<lambda>session. id_s session = i) (sessions st) = Some t \<longrightarrow>
      (\<exists>new. sessions (duplicateSession uuid today i direction st) = sessions st @ [new]) \<and>
      (\<forall>k<length (sessions st).
         sessions (duplicateSession uuid today i direction st) ! k = sessions st ! k) \<and>
      find (\<lambda>session. id_s session = i) (sessions (duplicateSession uuid today i direction st)) = Some t \<and>
      sessionForm (duplicateSession uuid today i direction st) = sessionForm st \<and>
      exerciseDrafts (duplicateSession uuid today i direction st) = exerciseDrafts st)"
proof (intro conjI allI impI)
  fix t assume f: "find (\<lambda>session. id_s session = i) (sessions st) = Some t"
  note eq = duplicateSession_found [OF f, of uuid today direction]
  show "\<exists>new. sessions (duplicateSession uuid today i direction st) = sessions st @ [new]"
    using eq by blast
  show "sessions (duplicateSession uuid today i direction st) ! k = sessions st ! k"
    if "k < length (sessions st)" for k
    using that by (simp add: eq nth_append)
  show "find (\<lambda>session. id_s session = i) (sessions (duplicateSession uuid today i direction st)) = Some t"
    unfolding eq using f by (rule find_append_Some)
  show "sessionForm (duplicateSession uuid today i direction st) = sessionForm st"
    using f by (simp add: duplicateSession_def Let_def)
  show "exerciseDrafts (duplicateSession uuid today i direction st) = exerciseDrafts st"
    using f by (simp add: duplicateSession_def Let_def)
qed (simp add: duplicateSession_not_found)

theorem duplicateSession_frame_witness:
  "find (\<lambda>session. id_s session = sample_uuid 10) (sessions (initialState sample_uuid)) =
     Some (hd (sessions (initialState sample_uuid))) \<and>
   find (\<lambda>session. id_s session = sample_uuid 10)
     (sessions (duplicateSession sample_uuid sample_today (sample_uuid 10) Next (initialState sample_uuid))) =
     Some (hd (sessions (initialState sample_uuid))) \<and>
   find (\<lambda>session. id_s session = ''none'') (sessions (initialState sample_uuid)) = None \<and>
   duplicateSession sample_uuid sample_today ''none'' Next (initialState sample_uuid) =
     initialState sample_uuid"
proof -
  have f: "find (\<lambda>session. id_s session = sample_uuid 10) (sessions (initialState sample_uuid)) =
     Some (hd (sessions (initialState sample_uuid)))"
    using initial_sessions [of sample_uuid] by auto
  have n: "find (\<lambda>session. id_s session = ''none'') (sessions (initialState sample_uuid)) = None"
    using initial_sessions [of sample_uuid] sample_uuid_not_none [of 10] by auto
  from duplicateSession_frame [of "sample_uuid 10" "initialState sample_uuid" sample_uuid sample_today Next]
    duplicateSession_frame [of "''none''" "initialState sample_uuid" sample_uuid sample_today Next]
    f n show ?thesis by blast
qed

section \<open>Fresh identifiers\<close>

lemma initial_ids_fresh: "session_ids_fresh uuid (initialState uuid)"
  by (auto simp: session_ids_fresh_def initialState_def intro: exI [of _ 10])

lemma fresh_append:
  assumes "inj uuid" "session_ids_fresh uuid st" "sessions st' = sessions st @ [s]"
    "id_s s = uuid k" "uuid_next st \<le> k" "k < uuid_next st'"
  shows "session_ids_fresh uuid st'"
proof -
  from assms(2) have d: "distinct (map id_s (sessions st))"
    and b: "\<forall>x\<in>set (sessions st). \<exists>j<uuid_next st. id_s x = uuid j"
    by (simp_all add: session_ids_fresh_def)
  have "id_s s \<notin> id_s ` set (sessions st)"
  proof
    assume "id_s s \<in> id_s ` set (sessions st)"
    then obtain x where "x \<in> set (sessions st)" "id_s x = id_s s" by auto
    with b obtain j where "j < uuid_next st" "uuid j = uuid k" using assms(4) by metis
    with assms(1,5) show False by (auto dest: injD)
  qed
  moreover have "\<forall>x\<in>set (sessions st). \<exists>j<uuid_next st'. id_s x = uuid j"
    using b assms(5,6) by (meson le_less_trans less_trans)
  ultimately show ?thesis using d assms(3,4,6) by (auto simp: session_ids_fresh_def)
qed

lemma fresh_filter:
  assumes "session_ids_fresh uuid st"
  shows "session_ids_fresh uuid (st\<lparr>sessions := filter P (sessions st)\<rparr>)"
  using assms by (auto simp: session_ids_fresh_def distinct_map_filter)

lemma fresh_same_sessions:
  assumes "session_ids_fresh uuid st" "sessions st' = sessions st" "uuid_next st \<le> uuid_next st'"
  shows "session_ids_fresh uuid st'"
  using assms unfolding session_ids_fresh_def by (metis less_le_trans)

lemma addSession_shape:
  "\<exists>s k. uuid_next st \<le> k \<and> id_s s = uuid k \<and>
         sessions (addSession uuid c st) = sessions st @ [s] \<and>
         uuid_next (addSession uuid c st) = Suc (Suc k)"
  by (auto simp: addSession_def Let_def)

lemma addSession_fresh:
  assumes "inj uuid" "session_ids_fresh uuid st"
  shows "session_ids_fresh uuid (addSession uuid c st)"
proof -
  from addSession_shape [of st uuid c] obtain s k where "uuid_next st \<le> k" "id_s s = uuid k"
    "sessions (addSession uuid c st) = sessions st @ [s]"
    "uuid_next (addSession uuid c st) = Suc (Suc k)" by blast
  then show ?thesis by (intro fresh_append [OF assms, of _ s k]) simp_all
qed

lemma applyTemplateToDay_shape:
  assumes "applyTemplateToDay uuid d n st = Inr st'"
  shows "\<exists>s. id_s s = uuid (uuid_next st) \<and> sessions st' = sessions st @ [s] \<and>
             uuid_next st < uuid_next st'"
  using assms by (auto simp: applyTemplateToDay_def Let_def split: option.splits)

lemma duplicateSession_shape:
  assumes "find (\<lambda>session. id_s session = i) (sessions st) = Some t"
  shows "\<exists>s. id_s s = uuid (uuid_next st) \<and>
             sessions (duplicateSession uuid today i direction st) = sessions st @ [s] \<and>
             uuid_next st < uuid_next (duplicateSession uuid today i direction st)"
  using assms by (auto simp: duplicateSession_def Let_def)

lemma step_fresh:
  assumes "inj uuid" "session_ids_fresh uuid st" "step uuid today a st = Inr st'"
  shows "session_ids_fresh uuid st'"
proof (cases a)
  case (HandleSessionChange kv)
  with assms show ?thesis
    by (auto simp: handleSessionChange_def intro: fresh_same_sessions [OF assms(2)])
next
  case (HandleExerciseChange i kv)
  with assms show ?thesis
    by (auto simp: handleExerciseChange_def intro: fresh_same_sessions [OF assms(2)])
next
  case (SetsOnChange i v)
  with assms show ?thesis
    by (auto simp: setsOnChange_def handleExerciseChange_def intro: fresh_same_sessions [OF assms(2)])
next
  case AddExerciseDraft
  with assms show ?thesis
    by (auto simp: addExerciseDraft_def intro: fresh_same_sessions [OF assms(2)])
next
  case (RemoveExerciseDraft i)
  with assms show ?thesis
    by (auto simp: removeExerciseDraft_def intro: fresh_same_sessions [OF assms(2)])
next
  case AddSession
  with assms addSession_fresh [OF assms(1,2)] show ?thesis by auto
next
  case (ApplyTemplateToDay d n)
  with assms(3) applyTemplateToDay_shape [of uuid d n st st']
  obtain s where "id_s s = uuid (uuid_next st)" "sessions st' = sessions st @ [s]"
    "uuid_next st < uuid_next st'" by auto
  then show ?thesis
    by (intro fresh_append [OF assms(1,2), of _ s "uuid_next st"]) simp_all
next
  case (ClearDay d)
  with assms fresh_filter [OF assms(2)] show ?thesis by (auto simp: clearDay_def)
next
  case (DuplicateSession i direction)
  show ?thesis
  proof (cases "find (\<lambda>session. id_s session = i) (sessions st)")
    case None
    with DuplicateSession assms show ?thesis by (simp add: duplicateSession_def)
  next
    case (Some t)
    with DuplicateSession assms(3) duplicateSession_shape [of i st t uuid today direction]
    obtain s where "id_s s = uuid (uuid_next st)" "sessions st' = sessions st @ [s]"
      "uuid_next st < uuid_next st'" by auto
    then show ?thesis
      by (intro fresh_append [OF assms(1,2), of _ s "uuid_next st"]) simp_all
  qed
next
  case (RemoveSession i)
  with assms fresh_filter [OF assms(2)] show ?thesis by (auto simp: removeSession_def)
qed

lemma run_fresh:
  assumes "inj uuid" "session_ids_fresh uuid st" "run uuid today as st = Inr st'"
  shows "session_ids_fresh uuid st'"
  using assms(2,3)
proof (induction as arbitrary: st)
  case Nil
  then show ?case by simp
next
  case (Cons a as)
  then show ?case
    by (auto split: sum.splits dest: step_fresh [OF assms(1)])
qed

text \<open>Every store that a run of the component reaches has pairwise distinct session ids.\<close>

lemma reachable_distinct_ids:
  assumes "inj uuid" "run uuid today as (initialState uuid) = Inr st"
  shows "distinct (map id_s (sessions st))"
  using run_fresh [OF assms(1) initial_ids_fresh assms(2)] by (simp add: session_ids_fresh_def)

section \<open>Removing sessions and the order of the store\<close>

lemma length_filter_distinct:
  assumes "distinct (map f xs)" "x \<in> set xs"
  shows "Suc (length (filter (\<lambda>y. f y \<noteq> f x) xs)) = length xs"
  using assms
proof (induction xs)
  case Nil
  then show ?case by simp
next
  case (Cons y ys)
  show ?case
  proof (cases "f y = f x")
    case True
    with Cons.prems have "f x \<notin> f ` set ys" by auto
    then have "\<forall>z\<in>set ys. f z \<noteq> f x" by (metis imageI)
    then have "filter (\<lambda>z. f z \<noteq> f x) ys = ys" by (simp add: filter_id_conv)
    with True show ?thesis by simp
  next
    case False
    with Cons show ?thesis by auto
  qed
qed

text \<open>
  C9. In a store whose session identifiers are pairwise distinct (the invariant of the data
  model, which every reachable store has: \<open>reachable_distinct_ids\<close>), \<open>removeSession\<close> makes
  the store one session shorter when a session has the identifier; when none has it, the
  state is returned as it is, and no error is part of the result.
\<close>

theorem removeSession_size:
  "(distinct (map id_s (sessions st)) \<and> (\<exists>s\<in>set (sessions st). id_s s = i) \<longrightarrow>
      Suc (length (sessions (removeSession i st))) = length (sessions st)) \<and>
   ((\<forall>s\<in>set (sessions st). id_s s \<noteq> i) \<longrightarrow> removeSession i st = st)"
proof (intro conjI impI)
  assume "distinct (map id_s (sessions st)) \<and> (\<exists>s\<in>set (sessions st). id_s s = i)"
  then obtain s where d: "distinct (map id_s (sessions st))" and s: "s \<in> set (sessions st)" "id_s s = i"
    by blast
  from length_filter_distinct [OF d s(1)] s(2)
  show "Suc (length (sessions (removeSession i st))) = length (sessions st)"
    by (simp add: removeSession_def)
next
  assume "\<forall>s\<in>set (sessions st). id_s s \<noteq> i"
  then have "filter (\<lambda>session. id_s session \<noteq> i) (sessions st) = sessions st"
    by (simp add: filter_id_conv)
  then show "removeSession i st = st" by (simp add: removeSession_def)
qed

theorem removeSession_size_witness:
  "distinct (map id_s (sessions (initialState sample_uuid))) \<and>
   hd (sessions (initialState sample_uuid)) \<in> set (sessions (initialState sample_uuid)) \<and>
   id_s (hd (sessions (initialState sample_uuid))) = sample_uuid 10 \<and>
   Suc (length (sessions (removeSession (sample_uuid 10) (initialState sample_uuid)))) =
     length (sessions (initialState sample_uuid)) \<and>
   removeSession ''none'' (initialState sample_uuid) = initialState sample_uuid"
proof -
  from initial_sessions [of sample_uuid] obtain s where
    s: "sessions (initialState sample_uuid) = [s]" "id_s s = sample_uuid 10" by blast
  then have a: "distinct (map id_s (sessions (initialState sample_uuid)))"
    "hd (sessions (initialState sample_uuid)) \<in> set (sessions (initialState sample_uuid))"
    "id_s (hd (sessions (initialState sample_uuid))) = sample_uuid 10" by simp_all
  have n: "\<forall>x\<in>set (sessions (initialState sample_uuid)). id_s x \<noteq> ''none''"
    using s sample_uuid_not_none [of 10] by simp
  from removeSession_size [of "initialState sample_uuid" "sample_uuid 10"]
    removeSession_size [of "initialState sample_uuid" "''none''"] a n
  show ?thesis by blast
qed

lemma at_Some_iff: "at xs n = Some x \<longleftrightarrow> n < length xs \<and> xs ! n = x"
  by (induction xs n rule: at.induct) auto

lemma at_None_iff: "at xs n = None \<longleftrightarrow> length xs \<le> n"
  by (induction xs n rule: at.induct) auto

lemma applyTemplateToDay_sessions:
  assumes "applyTemplateToDay uuid d n st = Inr st'"
  shows "\<exists>s. sessions st' = sessions st @ [s] \<and> day s = d \<and> start s = ''18:00'' \<and> end_s s = ''19:00''"
  using assms by (auto simp: applyTemplateToDay_def Let_def split: option.splits)

lemma applyTemplateToDay_defined:
  "(\<exists>st'. applyTemplateToDay uuid d n st = Inr st') \<longleftrightarrow> n < length (templates uuid)"
proof (cases "at (templates uuid) n")
  case None
  then have "\<not> n < length (templates uuid)" by (simp add: at_None_iff)
  with None show ?thesis by (simp add: applyTemplateToDay_def)
next
  case (Some a)
  then have "n < length (templates uuid)" by (simp add: at_Some_iff)
  with Some show ?thesis by (simp add: applyTemplateToDay_def Let_def)
qed

lemma duplicateSession_sessions:
  "sessions (duplicateSession uuid today i direction st) = sessions st \<or>
   (\<exists>s. sessions (duplicateSession uuid today i direction st) = sessions st @ [s])"
proof (cases "find (\<lambda>session. id_s session = i) (sessions st)")
  case None
  then show ?thesis by (simp add: duplicateSession_not_found)
next
  case (Some t)
  from duplicateSession_found [OF this] show ?thesis by blast
qed

text \<open>
  C10. \<open>addSession\<close> and \<open>applyTemplateToDay\<close> (which succeeds for every index within the
  catalogue) leave the old session list in place and append one session at its end; so
  does \<open>duplicateSession\<close> when a session has the identifier, and when none has it the list
  is the old one. \<open>removeSession\<close> and \<open>clearDay\<close> return a subsequence of the old list, the
  survivors in their old order.
\<close>

theorem mutations_keep_order:
  "(\<exists>s. sessions (addSession uuid c st) = sessions st @ [s]) \<and>
   (\<forall>st'. applyTemplateToDay uuid d n st = Inr st' \<longrightarrow> (\<exists>s. sessions st' = sessions st @ [s])) \<and>
   (n < length (templates uuid) \<longrightarrow> (\<exists>st'. applyTemplateToDay uuid d n st = Inr st')) \<and>
   (\<forall>t. find (\<lambda>session. id_s session = i) (sessions st) = Some t \<longrightarrow>
      (\<exists>s. sessions (duplicateSession uuid today i direction st) = sessions st @ [s])) \<and>
   (find (\<lambda>session. id_s session = i) (sessions st) = None \<longrightarrow>
      sessions (duplicateSession uuid today i direction st) = sessions st) \<and>
   subseq (sessions (removeSession i st)) (sessions st) \<and>
   set (sessions (removeSession i st)) = {s \<in> set (sessions st). id_s s \<noteq> i} \<and>
   subseq (sessions (clearDay d st)) (sessions st) \<and>
   set (sessions (clearDay d st)) = {s \<in> set (sessions st). day s \<noteq> d}"
proof -
  have a: "\<exists>s. sessions (addSession uuid c st) = sessions st @ [s]"
    using addSession_sessions [of uuid c st] by blast
  have t: "\<forall>st'. applyTemplateToDay uuid d n st = Inr st' \<longrightarrow> (\<exists>s. sessions st' = sessions st @ [s])"
    using applyTemplateToDay_sessions [of uuid d n st] by blast
  have t': "n < length (templates uuid) \<longrightarrow> (\<exists>st'. applyTemplateToDay uuid d n st = Inr st')"
    by (simp add: applyTemplateToDay_defined)
  have f: "\<forall>t. find (\<lambda>session. id_s session = i) (sessions st) = Some t \<longrightarrow>
      (\<exists>s. sessions (duplicateSession uuid today i direction st) = sessions st @ [s])"
    using duplicateSession_found [of i st _ uuid today direction] by blast
  have nf: "find (\<lambda>session. id_s session = i) (sessions st) = None \<longrightarrow>
      sessions (duplicateSession uuid today i direction st) = sessions st"
    by (simp add: duplicateSession_not_found)
  have r: "subseq (sessions (removeSession i st)) (sessions st)"
    "set (sessions (removeSession i st)) = {s \<in> set (sessions st). id_s s \<noteq> i}"
    by (simp_all add: removeSession_def)
  have c: "subseq (sessions (clearDay d st)) (sessions st)"
    "set (sessions (clearDay d st)) = {s \<in> set (sessions st). day s \<noteq> d}"
    by (simp_all add: clearDay_def)
  from a t t' f nf r c show ?thesis by blast
qed

theorem mutations_keep_order_witness:
  "2 < length (templates sample_uuid) \<and>
   (\<exists>st'. applyTemplateToDay sample_uuid Sunday 2 (initialState sample_uuid) = Inr st' \<and>
      (\<exists>s. sessions st' = sessions (initialState sample_uuid) @ [s])) \<and>
   find (\<lambda>session. id_s session = sample_uuid 10) (sessions (initialState sample_uuid)) =
     Some (hd (sessions (initialState sample_uuid))) \<and>
   (\<exists>s. sessions (duplicateSession sample_uuid sample_today (sample_uuid 10) Next
           (initialState sample_uuid)) = sessions (initialState sample_uuid) @ [s]) \<and>
   find (\<lambda>session. id_s session = ''none'') (sessions (initialState sample_uuid)) = None \<and>
   sessions (duplicateSession sample_uuid sample_today ''none'' Next (initialState sample_uuid)) =
     sessions (initialState sample_uuid)"
proof -
  have l: "2 < length (templates sample_uuid)" by (simp add: templates_def)
  have f: "find (\<lambda>session. id_s session = sample_uuid 10) (sessions (initialState sample_uuid)) =
     Some (hd (sessions (initialState sample_uuid)))"
    using initial_sessions [of sample_uuid] by auto
  have n: "find (\<lambda>session. id_s session = ''none'') (sessions (initialState sample_uuid)) = None"
    using initial_sessions [of sample_uuid] sample_uuid_not_none [of 10] by auto
  from mutations_keep_order [where uuid = sample_uuid and c = None and d = Sunday and n = 2
      and st = "initialState sample_uuid" and today = sample_today and direction = Next
      and i = "sample_uuid 10"]
    mutations_keep_order [where uuid = sample_uuid and c = None and d = Sunday and n = 2
      and st = "initialState sample_uuid" and today = sample_today and direction = Next
      and i = "''none''"] l f n
  show ?thesis by blast
qed

section \<open>How sessions come into the store\<close>

text \<open>
  C4, as stated, fails: before any handler has run the store is not empty.
\<close>

theorem initial_store_counterexample: "sessions (initialState sample_uuid) \<noteq> []"
  by (simp add: initialState_def)

text \<open>
  C4, amended. The store starts with exactly one session, the seeded one (Monday, 07:00 to
  08:15, Lower Body Strength, with the default exercises). After that, a handler other than
  \<open>addSession\<close>, \<open>applyTemplateToDay\<close> and \<open>duplicateSession\<close> never adds a session: its
  session list is a subsequence of the old one; and each of these three appends at most
  one session.
\<close>

theorem sessions_created_explicitly:
  "map (\<lambda>s. (day s, start s, end_s s, focus s, exercises s)) (sessions (initialState uuid)) =
     [(Monday, ''07:00'', ''08:15'', ''Lower Body Strength'', defaultExercises uuid)] \<and>
   (\<forall>st'. step uuid today a st = Inr st' \<longrightarrow> \<not> creates_session a \<longrightarrow>
      subseq (sessions st') (sessions st)) \<and>
   (\<forall>st'. step uuid today a st = Inr st' \<longrightarrow> creates_session a \<longrightarrow>
      sessions st' = sessions st \<or> (\<exists>s. sessions st' = sessions st @ [s]))"
proof (intro conjI allI impI)
  show "map (\<lambda>s. (day s, start s, end_s s, focus s, exercises s)) (sessions (initialState uuid)) =
     [(Monday, ''07:00'', ''08:15'', ''Lower Body Strength'', defaultExercises uuid)]"
    by (simp add: initialState_def initialSessionForm_def)
next
  fix st' assume "step uuid today a st = Inr st'" "\<not> creates_session a"
  then show "subseq (sessions st') (sessions st)"
    by (cases a)
      (auto simp: handleSessionChange_def handleExerciseChange_def setsOnChange_def
        addExerciseDraft_def removeExerciseDraft_def clearDay_def removeSession_def)
next
  fix st' assume s: "step uuid today a st = Inr st'" and "creates_session a"
  then consider "a = AddSession" | d n where "a = ApplyTemplateToDay d n"
    | i direction where "a = DuplicateSession i direction"
    by (cases a) auto
  then show "sessions st' = sessions st \<or> (\<exists>s. sessions st' = sessions st @ [s])"
  proof cases
    case 1
    with s addSession_sessions [of uuid None st] show ?thesis by auto
  next
    case 2
    with s applyTemplateToDay_sessions [of uuid d n st st'] show ?thesis by auto
  next
    case 3
    with s duplicateSession_sessions [of uuid today i direction st] show ?thesis by auto
  qed
qed

theorem sessions_created_explicitly_witness:
  "step sample_uuid sample_today (ClearDay Monday) (initialState sample_uuid) =
     Inr (clearDay Monday (initialState sample_uuid)) \<and>
   \<not> creates_session (ClearDay Monday) \<and>
   subseq (sessions (clearDay Monday (initialState sample_uuid))) (sessions (initialState sample_uuid)) \<and>
   step sample_uuid sample_today AddSession (initialState sample_uuid) =
     Inr (addSession sample_uuid None (initialState sample_uuid)) \<and>
   creates_session AddSession \<and>
   (sessions (addSession sample_uuid None (initialState sample_uuid)) = sessions (initialState sample_uuid) \<or>
    (\<exists>s. sessions (addSession sample_uuid None (initialState sample_uuid)) =
        sessions (initialState sample_uuid) @ [s]))"
proof -
  have a: "step sample_uuid sample_today (ClearDay Monday) (initialState sample_uuid) =
     Inr (clearDay Monday (initialState sample_uuid))" "\<not> creates_session (ClearDay Monday)"
    "step sample_uuid sample_today AddSession (initialState sample_uuid) =
     Inr (addSession sample_uuid None (initialState sample_uuid))" "creates_session AddSession"
    by simp_all
  from sessions_created_explicitly [of sample_uuid sample_today "ClearDay Monday" "initialState sample_uuid"]
    sessions_created_explicitly [of sample_uuid sample_today AddSession "initialState sample_uuid"] a
  show ?thesis by blast
qed

text \<open>
  C5 fails on the code. The sets input declares \<open>min = 1\<close>, but its handler stores
  \<open>Number(value) || 0\<close>: after naming the draft \<open>Plank\<close> and emptying the sets input,
  \<open>addSession\<close> puts an exercise with 0 sets into the store.
\<close>

theorem sets_zero_stored:
  "(case run sample_uuid sample_today
           [HandleExerciseChange (sample_uuid 11) (E_name ''Plank''),
            SetsOnChange (sample_uuid 11) (Some 0),
            AddSession]
           (initialState sample_uuid) of
      Inl e \<Rightarrow> [] 
    | Inr st \<Rightarrow> map (\<lambda>s. map (\<lambda>e. (name e, sets e)) (exercises s)) (sessions st)) =
   [[(''Barbell Back Squat'', 4), (''Romanian Deadlift'', 3)], [(''Plank'', 0)]]"
  by code_simp

end
